theory Spec2Isabelle
  imports Main
begin

section \<open>Shared vocabulary\<close>

text \<open>
  The front end is written with asynchronous functions. An asynchronous function runs
  without interruption up to an \<^verbatim>\<open>await\<close>, where it hands control back to the event loop;
  the state updates it made so far are rendered, and the function goes on when the awaited
  call settles. The embedding therefore cuts every asynchronous function at its
  \<^verbatim>\<open>await\<close>s: the outcome of an awaited call (resolved with a value, or rejected with an
  error) is an argument of the part that runs after it, and the states a user interface
  can see are the states at the cuts and the state at the end.
\<close>

text \<open>A rejected promise or a thrown exception, as a value.\<close>

datatype js_error =
    Error string        \<comment> \<open>\<^verbatim>\<open>new Error(message)\<close>\<close>
  | ProviderError       \<comment> \<open>a call of the identity provider's SDK rejected\<close>
  | NetworkError        \<comment> \<open>\<^verbatim>\<open>fetch\<close> rejected\<close>
  | TypeError           \<comment> \<open>a property read on \<^verbatim>\<open>null\<close>\<close>

text \<open>The calls that leave the component: SDK calls and calls of \<^verbatim>\<open>apiClient\<close>.\<close>

datatype call =
    GetIdToken string         \<comment> \<open>\<^verbatim>\<open>currentUser.getIdToken()\<close>\<close>
  | SignOut                   \<comment> \<open>\<^verbatim>\<open>signOut(auth)\<close>\<close>
  | SignInWithPopup           \<comment> \<open>\<^verbatim>\<open>signInWithPopup(auth, provider)\<close>\<close>
  | ApiGet string             \<comment> \<open>\<^verbatim>\<open>apiClient.get(endpoint)\<close>\<close>
  | ApiPut string string      \<comment> \<open>\<^verbatim>\<open>apiClient.put(endpoint, {status})\<close>\<close>

section \<open>AuthProvider: the session\<close>

text \<open>
  \<^verbatim>\<open>type UserRole = "admin" | "developer" | null\<close>; the provider's \<^verbatim>\<open>User\<close> object is
  opaque and stands here for its uid.
\<close>

datatype role = Admin | Developer

type_synonym UserRole = "role option"

type_synonym user = string

text \<open>The four \<^verbatim>\<open>useState\<close> cells of \<^verbatim>\<open>AuthProvider\<close>, with their initial values.\<close>

record session =
  user :: "user option"
  idToken :: "string option"
  role :: UserRole
  loading :: bool

definition initial_session :: session where
  "initial_session = \<lparr>user = None, idToken = None, role = None, loading = True\<rparr>"

text \<open>The payload of \<^verbatim>\<open>GET /users/me\<close>, of which the code reads \<^verbatim>\<open>userInfo.role\<close>.\<close>

datatype userInfo = UserInfo (info_role: UserRole)

text \<open>
  The outcomes of the calls awaited while one auth event is handled:
  \<^verbatim>\<open>currentUser.getIdToken()\<close>, \<^verbatim>\<open>apiClient.get("/users/me")\<close> (which resolves with
  \<^verbatim>\<open>null\<close> on a 204 response) and \<^verbatim>\<open>signOut(auth)\<close>.
\<close>

record outcomes =
  token_result :: "js_error + string"
  me_result :: "js_error + userInfo option"
  signOut_result :: "js_error + unit"

text \<open>
  What one handler did: the states rendered at its \<^verbatim>\<open>await\<close>s, in order, the state it
  left, and the calls it made.
\<close>

record run =
  published :: "session list"
  final :: session
  calls :: "call list"

text \<open>
  \<^verbatim>\<open>logOut\<close>: the three cells are cleared after \<^verbatim>\<open>await signOut(auth)\<close>, inside the
  \<^verbatim>\<open>try\<close>; the \<^verbatim>\<open>catch\<close> only logs.
\<close>

definition logOut :: "session \<Rightarrow> js_error + unit \<Rightarrow> session" where
  "logOut s signed_out =
     (case signed_out of
        Inr _ \<Rightarrow> s\<lparr>user := None, idToken := None, role := None\<rparr>
      | Inl e \<Rightarrow> s)"

text \<open>
  The \<^verbatim>\<open>try\<close> block of the subscription's callback: \<^verbatim>\<open>userInfo.role\<close> throws when
  \<^verbatim>\<open>userInfo\<close> is \<^verbatim>\<open>null\<close>, and the \<^verbatim>\<open>catch\<close> takes that as it takes a rejected request.
\<close>

definition role_lookup :: "js_error + userInfo option \<Rightarrow> js_error + UserRole" where
  "role_lookup me =
     (case me of
        Inl e \<Rightarrow> Inl e
      | Inr None \<Rightarrow> Inl TypeError
      | Inr (Some userInfo) \<Rightarrow> Inr (info_role userInfo))"

text \<open>
  The callback given to \<^verbatim>\<open>onAuthStateChanged\<close>, run alone from its start to its end,
  with the answers of its calls given.
\<close>

definition onAuthStateChanged :: "session \<Rightarrow> user option \<Rightarrow> outcomes \<Rightarrow> run" where
  "onAuthStateChanged s currentUser env =
     (let s0 = s\<lparr>loading := True\<rparr> in
      case currentUser of
        None \<Rightarrow>
          \<lparr>published = [],
           final = s0\<lparr>user := None, idToken := None, role := None, loading := False\<rparr>,
           calls = []\<rparr>
      | Some u \<Rightarrow>
          let s1 = s0\<lparr>user := Some u\<rparr> in
          (case token_result env of
             Inl e \<Rightarrow> \<lparr>published = [s1], final = s1, calls = [GetIdToken u]\<rparr>
           | Inr token \<Rightarrow>
               let s2 = s1\<lparr>idToken := Some token\<rparr> in
               (case role_lookup (me_result env) of
                  Inr r \<Rightarrow>
                    \<lparr>published = [s1, s2],
                     final = s2\<lparr>role := r, loading := False\<rparr>,
                     calls = [GetIdToken u, ApiGet ''/users/me'']\<rparr>
                | Inl e \<Rightarrow>
                    let s3 = logOut s2 (signOut_result env) in
                    \<lparr>published = [s1, s2, s3],
                     final = s3\<lparr>loading := False\<rparr>,
                     calls = [GetIdToken u, ApiGet ''/users/me'', SignOut]\<rparr>)))"

text \<open>
  \<^verbatim>\<open>googleSignIn\<close> changes no cell: the subscription's callback does, once the provider
  reports the new user.
\<close>

definition googleSignIn :: "session \<Rightarrow> js_error + unit \<Rightarrow> session" where
  "googleSignIn s popup = s"

text \<open>
  The session on the event loop. Nothing makes the provider wait for a callback before it
  reports the next change, and a component may call \<^verbatim>\<open>logOut\<close> or \<^verbatim>\<open>googleSignIn\<close> at
  any time, so several calls can wait at their \<^verbatim>\<open>await\<close>s at once and their answers come
  in any order. A waiting call is the callback at \<^verbatim>\<open>await currentUser.getIdToken()\<close> or
  at \<^verbatim>\<open>await apiClient.get("/users/me")\<close>, \<^verbatim>\<open>logOut\<close> at \<^verbatim>\<open>await signOut(auth)\<close>
  (called by the callback's \<^verbatim>\<open>catch\<close>, which goes on with \<^verbatim>\<open>setLoading(false)\<close>, or by
  a component), or \<^verbatim>\<open>googleSignIn\<close> at \<^verbatim>\<open>await signInWithPopup(...)\<close>.
\<close>

datatype wait = AwaitToken user | AwaitMe user | AwaitSignOut bool | AwaitPopup

record auth =
  cells :: session
  waiting :: "wait list"

definition initial_auth :: auth where
  "initial_auth = \<lparr>cells = initial_session, waiting = []\<rparr>"

datatype event =
    AuthEvent "user option"                    \<comment> \<open>the provider reports a user, or none\<close>
  | LogOutClick                                \<comment> \<open>a component calls \<^verbatim>\<open>logOut\<close>\<close>
  | GoogleSignInClick
  | TokenSettled nat "js_error + string"       \<comment> \<open>the answer to a waiting \<^verbatim>\<open>getIdToken\<close>\<close>
  | MeSettled nat "js_error + userInfo option" \<comment> \<open>the answer to a waiting role lookup\<close>
  | SignOutSettled nat "js_error + unit"       \<comment> \<open>the answer to a waiting \<^verbatim>\<open>signOut\<close>\<close>
  | PopupSettled nat "js_error + unit"

definition waits :: "auth \<Rightarrow> nat \<Rightarrow> wait option" where
  "waits a i = (if i < length (waiting a) then Some (waiting a ! i) else None)"

definition answered :: "auth \<Rightarrow> nat \<Rightarrow> auth" where
  "answered a i = a\<lparr>waiting := take i (waiting a) @ drop (Suc i) (waiting a)\<rparr>"

text \<open>
  One turn of the event loop: an event starts its handler, which runs to its first
  \<^verbatim>\<open>await\<close>; an answer lets the call that waited for it run to its next \<^verbatim>\<open>await\<close> or to
  its end. An answer for a call that does not wait changes nothing.
\<close>

fun deliver :: "auth \<Rightarrow> event \<Rightarrow> auth" where
  "deliver a (AuthEvent None) =
     a\<lparr>cells := (cells a)\<lparr>user := None, idToken := None, role := None, loading := False\<rparr>\<rparr>"
| "deliver a (AuthEvent (Some u)) =
     a\<lparr>cells := (cells a)\<lparr>loading := True, user := Some u\<rparr>,
       waiting := waiting a @ [AwaitToken u]\<rparr>"
| "deliver a LogOutClick = a\<lparr>waiting := waiting a @ [AwaitSignOut False]\<rparr>"
| "deliver a GoogleSignInClick = a\<lparr>waiting := waiting a @ [AwaitPopup]\<rparr>"
| "deliver a (TokenSettled i got) =
     (case waits a i of
        Some (AwaitToken u) \<Rightarrow>
          (case got of
             Inl e \<Rightarrow> answered a i
           | Inr token \<Rightarrow>
               \<lparr>cells = (cells a)\<lparr>idToken := Some token\<rparr>,
                waiting = waiting (answered a i) @ [AwaitMe u]\<rparr>)
      | _ \<Rightarrow> a)"
| "deliver a (MeSettled i got) =
     (case waits a i of
        Some (AwaitMe u) \<Rightarrow>
          (case role_lookup got of
             Inr r \<Rightarrow>
               \<lparr>cells = (cells a)\<lparr>role := r, loading := False\<rparr>,
                waiting = waiting (answered a i)\<rparr>
           | Inl e \<Rightarrow>
               \<lparr>cells = cells a, waiting = waiting (answered a i) @ [AwaitSignOut True]\<rparr>)
      | _ \<Rightarrow> a)"
| "deliver a (SignOutSettled i got) =
     (case waits a i of
        Some (AwaitSignOut in_callback) \<Rightarrow>
          \<lparr>cells = (if in_callback then (logOut (cells a) got)\<lparr>loading := False\<rparr>
                    else logOut (cells a) got),
           waiting = waiting (answered a i)\<rparr>
      | _ \<Rightarrow> a)"
| "deliver a (PopupSettled i got) =
     (case waits a i of
        Some AwaitPopup \<Rightarrow>
          \<lparr>cells = googleSignIn (cells a) got, waiting = waiting (answered a i)\<rparr>
      | _ \<Rightarrow> a)"

text \<open>Every state a consumer of the context can see while the events are delivered.\<close>

fun seen :: "auth \<Rightarrow> event list \<Rightarrow> session list" where
  "seen a [] = [cells a]"
| "seen a (x # xs) = cells a # seen (deliver a x) xs"

text \<open>
  An event clears the session when it is a logged-out event or the answer that resolves a
  waiting sign-out. A run is calm when that never happens while a callback still waits
  for its token or for its role lookup.
\<close>

fun awaits_role :: "wait \<Rightarrow> bool" where
  "awaits_role (AwaitToken u) = True"
| "awaits_role (AwaitMe u) = True"
| "awaits_role (AwaitSignOut in_callback) = False"
| "awaits_role AwaitPopup = False"

fun clearing :: "auth \<Rightarrow> event \<Rightarrow> bool" where
  "clearing a (AuthEvent None) = True"
| "clearing a (SignOutSettled i (Inr ok)) =
     (case waits a i of Some (AwaitSignOut in_callback) \<Rightarrow> True | _ \<Rightarrow> False)"
| "clearing a x = False"

fun calm :: "auth \<Rightarrow> event list \<Rightarrow> bool" where
  "calm a [] = True"
| "calm a (x # xs) =
     ((clearing a x \<longrightarrow> \<not> list_ex awaits_role (waiting a)) \<and> calm (deliver a x) xs)"

text \<open>
  An answer leaves the session without a role when it answers a waiting role lookup with
  a null role, or when it rejects the sign-out that the callback asked for after a failed
  role lookup. A run is steady when it has no such answer.
\<close>

fun unsettling :: "auth \<Rightarrow> event \<Rightarrow> bool" where
  "unsettling a (MeSettled i got) =
     (case waits a i of Some (AwaitMe u) \<Rightarrow> role_lookup got = Inr None | _ \<Rightarrow> False)"
| "unsettling a (SignOutSettled i (Inl e)) =
     (case waits a i of Some (AwaitSignOut in_callback) \<Rightarrow> in_callback | _ \<Rightarrow> False)"
| "unsettling a x = False"

fun steady :: "auth \<Rightarrow> event list \<Rightarrow> bool" where
  "steady a [] = True"
| "steady a (x # xs) = (\<not> unsettling a x \<and> steady (deliver a x) xs)"

section \<open>apiClient: authenticated requests\<close>

text \<open>
  What \<^verbatim>\<open>fetchFromApi\<close> is given from outside: the base URL of the environment, the
  provider's \<^verbatim>\<open>auth.currentUser\<close> at the time of the request, the provider's
  \<^verbatim>\<open>getIdToken\<close> and the browser's \<^verbatim>\<open>fetch\<close>.
\<close>

record options =
  opt_method :: "string option"
  opt_body :: "string option"
  opt_headers :: "string \<rightharpoonup> string"

record request =
  req_url :: string
  req_method :: "string option"
  req_body :: "string option"
  req_headers :: "string \<rightharpoonup> string"

text \<open>
  The body of a response that is not ok, as \<^verbatim>\<open>response.json().catch(() => ({}))\<close> reads
  it: not JSON, the value \<^verbatim>\<open>null\<close>, or a value with or without a \<^verbatim>\<open>detail\<close>.
\<close>

datatype error_data = NotJson | JsonNull | Detail "string option"

record 'a response =
  resp_ok :: bool
  resp_status :: nat
  resp_error_data :: error_data
  resp_json :: "js_error + 'a"

record 'a api =
  API_BASE_URL :: string
  auth_currentUser :: "user option"
  getIdToken :: "user \<Rightarrow> js_error + string"
  fetch :: "request \<Rightarrow> js_error + 'a response"

text \<open>The credential of a request: the user check and \<^verbatim>\<open>await user.getIdToken()\<close>.\<close>

definition fetchFromApi_token :: "'a api \<Rightarrow> js_error + string" where
  "fetchFromApi_token w =
     (case auth_currentUser w of
        None \<Rightarrow> Inl (Error ''No authenticated user found.'')
      | Some u \<Rightarrow> getIdToken w u)"

text \<open>The request as it is handed to \<^verbatim>\<open>fetch\<close>: the caller's options, the two headers set.\<close>

definition fetchFromApi_request :: "'a api \<Rightarrow> string \<Rightarrow> options \<Rightarrow> js_error + request" where
  "fetchFromApi_request w endpoint opts =
     (case fetchFromApi_token w of
        Inl e \<Rightarrow> Inl e
      | Inr token \<Rightarrow>
          Inr \<lparr>req_url = API_BASE_URL w @ endpoint,
               req_method = opt_method opts,
               req_body = opt_body opts,
               req_headers = (opt_headers opts)
                 (''Authorization'' \<mapsto> ''Bearer '' @ token,
                  ''Content-Type'' \<mapsto> ''application/json'')\<rparr>)"

definition error_message :: "error_data \<Rightarrow> js_error" where
  "error_message d =
     (case d of
        NotJson \<Rightarrow> Error ''API request failed''
      | JsonNull \<Rightarrow> TypeError
      | Detail None \<Rightarrow> Error ''API request failed''
      | Detail (Some m) \<Rightarrow> Error (if m = [] then ''API request failed'' else m))"

definition fetchFromApi :: "'a api \<Rightarrow> string \<Rightarrow> options \<Rightarrow> js_error + 'a option" where
  "fetchFromApi w endpoint opts =
     (case fetchFromApi_request w endpoint opts of
        Inl e \<Rightarrow> Inl e
      | Inr req \<Rightarrow>
          (case fetch w req of
             Inl e \<Rightarrow> Inl e
           | Inr response \<Rightarrow>
               if \<not> resp_ok response then Inl (error_message (resp_error_data response))
               else if resp_status response = 204 then Inr None
               else (case resp_json response of Inl e \<Rightarrow> Inl e | Inr v \<Rightarrow> Inr (Some v))))"

definition apiClient_get :: "'a api \<Rightarrow> string \<Rightarrow> options \<Rightarrow> js_error + 'a option" where
  "apiClient_get w endpoint opts = fetchFromApi w endpoint (opts\<lparr>opt_method := Some ''GET''\<rparr>)"

text \<open>The body is given as \<^verbatim>\<open>JSON.stringify\<close> made it.\<close>

definition apiClient_put :: "'a api \<Rightarrow> string \<Rightarrow> string \<Rightarrow> options \<Rightarrow> js_error + 'a option" where
  "apiClient_put w endpoint body opts =
     fetchFromApi w endpoint (opts\<lparr>opt_method := Some ''PUT'', opt_body := Some body\<rparr>)"

definition no_options :: options where
  "no_options = \<lparr>opt_method = None, opt_body = None, opt_headers = Map.empty\<rparr>"

section \<open>DeveloperDashboard: the board\<close>

record task =
  taskId :: string
  projectId :: string
  title :: string
  description :: string
  status :: string
  priority :: string

text \<open>
  The \<^verbatim>\<open>useState\<close> cells of \<^verbatim>\<open>DeveloperDashboard\<close>; its cell \<^verbatim>\<open>loading\<close> is
  \<open>loading_tasks\<close> here, the session having a \<open>loading\<close> of its own.
\<close>

record dashboard =
  tasks :: "task list"
  activeTask :: "task option"
  loading_tasks :: bool
  error :: "string option"
  selectedTaskId :: "string option"
  selectedTaskTitle :: "string option"

definition initial_dashboard :: dashboard where
  "initial_dashboard =
     \<lparr>tasks = [], activeTask = None, loading_tasks = True, error = None,
      selectedTaskId = None, selectedTaskTitle = None\<rparr>"

text \<open>
  A drag-end event, of which the handler reads \<^verbatim>\<open>active.id\<close> and \<^verbatim>\<open>over\<close>
  (\<^verbatim>\<open>null\<close> when the card was dropped outside every column) with its \<^verbatim>\<open>id\<close>.
\<close>

record dragEndEvent =
  active_id :: string
  over_id :: "string option"

text \<open>
  An asynchronous call that waits at its \<^verbatim>\<open>await\<close>: \<^verbatim>\<open>handleDragEnd\<close> at
  \<^verbatim>\<open>await apiClient.put(...)\<close>, with its variables \<^verbatim>\<open>taskId\<close>, \<^verbatim>\<open>newStatus\<close> and
  \<^verbatim>\<open>currentTask\<close> (the task as it was before the move), or \<^verbatim>\<open>fetchTasks\<close> at
  \<^verbatim>\<open>await apiClient.get("/tasks/my")\<close>.
\<close>

datatype frame = AwaitPut string string task | AwaitGet

fun frame_call :: "frame \<Rightarrow> call" where
  "frame_call (AwaitPut tid newStatus currentTask) =
     ApiPut (''/tasks/'' @ tid @ ''/status'') newStatus"
| "frame_call AwaitGet = ApiGet ''/tasks/my''"

text \<open>\<^verbatim>\<open>fetchTasks\<close>, up to its \<^verbatim>\<open>await\<close> and after it.\<close>

definition fetchTasks_begin :: "dashboard \<Rightarrow> dashboard \<times> frame" where
  "fetchTasks_begin d = (d\<lparr>loading_tasks := True, error := None\<rparr>, AwaitGet)"

definition fetchTasks_resume :: "dashboard \<Rightarrow> js_error + task list \<Rightarrow> dashboard" where
  "fetchTasks_resume d got =
     (case got of
        Inr taskData \<Rightarrow> d\<lparr>tasks := taskData, loading_tasks := False\<rparr>
      | Inl err \<Rightarrow> d\<lparr>error := Some ''Failed to fetch tasks.'', loading_tasks := False\<rparr>)"

definition handleDragStart :: "dashboard \<Rightarrow> task option \<Rightarrow> dashboard" where
  "handleDragStart d t = d\<lparr>activeTask := t\<rparr>"

text \<open>
  \<^verbatim>\<open>handleDragEnd\<close>, up to its \<^verbatim>\<open>await\<close>: it returns with no call made (no frame), or
  it has updated the list and waits for the answer to its \<^verbatim>\<open>PUT\<close>. The list it searches
  is the list of the render it belongs to, which is the list of the cells when the event is
  handled. \<^verbatim>\<open>find\<close> takes the first task with the identifier; the update takes them all.
\<close>

definition handleDragEnd_begin :: "dashboard \<Rightarrow> dragEndEvent \<Rightarrow> dashboard \<times> frame option" where
  "handleDragEnd_begin d event =
     (let d1 = d\<lparr>activeTask := None\<rparr> in
      case over_id event of
        None \<Rightarrow> (d1, None)
      | Some newStatus \<Rightarrow>
          let tid = active_id event in
          (case find (\<lambda>t. taskId t = tid) (tasks d) of
             Some currentTask \<Rightarrow>
               if status currentTask \<noteq> newStatus
               then (d1\<lparr>tasks :=
                         map (\<lambda>t. if taskId t = tid then t\<lparr>status := newStatus\<rparr> else t)
                           (tasks d1)\<rparr>,
                     Some (AwaitPut tid newStatus currentTask))
               else (d1, None)
           | None \<Rightarrow> (d1, None)))"

text \<open>
  \<^verbatim>\<open>handleDragEnd\<close>, after its \<^verbatim>\<open>await\<close>: nothing when the \<^verbatim>\<open>PUT\<close> resolved; the
  \<^verbatim>\<open>catch\<close> calls \<^verbatim>\<open>fetchTasks()\<close> and does not wait for it.
\<close>

definition handleDragEnd_resume :: "dashboard \<Rightarrow> js_error + unit \<Rightarrow> dashboard \<times> frame option" where
  "handleDragEnd_resume d put =
     (case put of
        Inr _ \<Rightarrow> (d, None)
      | Inl err \<Rightarrow> (case fetchTasks_begin d of (d', f) \<Rightarrow> (d', Some f)))"

definition handleOpenComments :: "dashboard \<Rightarrow> string \<Rightarrow> string \<Rightarrow> dashboard" where
  "handleOpenComments d ident ttl = d\<lparr>selectedTaskId := Some ident, selectedTaskTitle := Some ttl\<rparr>"

definition onClose :: "dashboard \<Rightarrow> dashboard" where
  "onClose d = d\<lparr>selectedTaskId := None, selectedTaskTitle := None\<rparr>"

text \<open>
  The component on the event loop: its cells, the calls that wait for an answer, and every
  request made so far. Answers come in any order, so a settlement names the waiting call
  by its place in the list.
\<close>

record board =
  ui :: dashboard
  inflight :: "frame list"
  requests :: "call list"

definition initial_board :: board where
  "initial_board = \<lparr>ui = initial_dashboard, inflight = [], requests = []\<rparr>"

datatype input =
    Mount                                 \<comment> \<open>the effect that calls \<^verbatim>\<open>fetchTasks()\<close>\<close>
  | RefreshClick                          \<comment> \<open>the button "Refresh Board"\<close>
  | DragStart "task option"
  | DragEnd dragEndEvent
  | OpenComments string string
  | CloseComments
  | PutSettled nat "js_error + unit"      \<comment> \<open>the answer to a waiting \<^verbatim>\<open>PUT\<close>\<close>
  | GetSettled nat "js_error + task list" \<comment> \<open>the answer to a waiting \<^verbatim>\<open>GET\<close>\<close>

definition suspend :: "board \<Rightarrow> dashboard \<Rightarrow> frame option \<Rightarrow> board" where
  "suspend b d fo =
     (case fo of
        None \<Rightarrow> b\<lparr>ui := d\<rparr>
      | Some f \<Rightarrow> b\<lparr>ui := d, inflight := inflight b @ [f],
                   requests := requests b @ [frame_call f]\<rparr>)"

definition settled :: "board \<Rightarrow> nat \<Rightarrow> board" where
  "settled b i = b\<lparr>inflight := take i (inflight b) @ drop (Suc i) (inflight b)\<rparr>"

fun step :: "board \<Rightarrow> input \<Rightarrow> board" where
  "step b Mount = (case fetchTasks_begin (ui b) of (d, f) \<Rightarrow> suspend b d (Some f))"
| "step b RefreshClick = (case fetchTasks_begin (ui b) of (d, f) \<Rightarrow> suspend b d (Some f))"
| "step b (DragStart t) = b\<lparr>ui := handleDragStart (ui b) t\<rparr>"
| "step b (DragEnd event) =
     (case handleDragEnd_begin (ui b) event of (d, fo) \<Rightarrow> suspend b d fo)"
| "step b (OpenComments ident ttl) = b\<lparr>ui := handleOpenComments (ui b) ident ttl\<rparr>"
| "step b CloseComments = b\<lparr>ui := onClose (ui b)\<rparr>"
| "step b (PutSettled i put) =
     (if i < length (inflight b) then
        (case inflight b ! i of
           AwaitPut tid newStatus currentTask \<Rightarrow>
             (case handleDragEnd_resume (ui b) put of (d, fo) \<Rightarrow> suspend (settled b i) d fo)
         | AwaitGet \<Rightarrow> b)
      else b)"
| "step b (GetSettled i got) =
     (if i < length (inflight b) then
        (case inflight b ! i of
           AwaitGet \<Rightarrow> (settled b i)\<lparr>ui := fetchTasks_resume (ui b) got\<rparr>
         | AwaitPut tid newStatus currentTask \<Rightarrow> b)
      else b)"

text \<open>The calls of \<^verbatim>\<open>handleDragEnd\<close> that wait for the answer about one task.\<close>

fun awaits_put :: "string \<Rightarrow> frame \<Rightarrow> bool" where
  "awaits_put tid (AwaitPut i newStatus currentTask) = (i = tid)"
| "awaits_put tid AwaitGet = False"

definition pending :: "board \<Rightarrow> string \<Rightarrow> frame list" where
  "pending b tid = filter (awaits_put tid) (inflight b)"

section \<open>Invariants and examples\<close>

text \<open>Two invariants of the session.\<close>

definition inv_role :: "session \<Rightarrow> bool" where
  "inv_role s = (role s \<noteq> None \<longrightarrow> user s \<noteq> None)"

definition inv_ready :: "session \<Rightarrow> bool" where
  "inv_ready s = (\<not> loading s \<longrightarrow> user s \<noteq> None \<longrightarrow> role s \<noteq> None)"

text \<open>While a callback waits for its token or for its role lookup, its user is set.\<close>

definition inv_waiting :: "auth \<Rightarrow> bool" where
  "inv_waiting a = (inv_role (cells a) \<and>
     ((\<exists>f \<in> set (waiting a). awaits_role f) \<longrightarrow> user (cells a) \<noteq> None))"

text \<open>
  A provider with a user signed in and a backend that knows her as a developer; a board
  that has loaded one task.
\<close>

definition example_api :: "userInfo api" where
  "example_api =
     \<lparr>API_BASE_URL = ''http://localhost:8000'',
      auth_currentUser = Some ''alice'',
      getIdToken = (\<lambda>u. Inr ''jwt''),
      fetch = (\<lambda>req. Inr \<lparr>resp_ok = True, resp_status = 200, resp_error_data = NotJson,
                            resp_json = Inr (UserInfo (Some Developer))\<rparr>)\<rparr>"

definition example_task :: task where
  "example_task =
     \<lparr>taskId = ''t1'', projectId = ''p1'', title = ''Board'', description = ''Drag and drop'',
      status = ''To-Do'', priority = ''High''\<rparr>"

definition example_board :: board where
  "example_board =
     \<lparr>ui = initial_dashboard\<lparr>tasks := [example_task], loading_tasks := False\<rparr>,
      inflight = [], requests = []\<rparr>"

section \<open>Properties of the session\<close>

lemmas auth_defs = initial_auth_def initial_session_def waits_def answered_def role_lookup_def
  logOut_def googleSignIn_def

text \<open>
  The callback run alone, each of its calls answered before anything else happens, ends
  as \<open>onAuthStateChanged\<close> says.
\<close>

lemma deliver_callback:
  "cells (foldl deliver \<lparr>cells = s, waiting = []\<rparr>
       [AuthEvent cu, TokenSettled 0 (token_result env), MeSettled 0 (me_result env),
        SignOutSettled 0 (signOut_result env)])
   = final (onAuthStateChanged s cu env)"
  by (cases cu; cases "token_result env"; cases "role_lookup (me_result env)")
     (simp_all add: onAuthStateChanged_def waits_def answered_def Let_def)

lemma waits_mem: "waits a i = Some f \<Longrightarrow> f \<in> set (waiting a)"
  by (auto simp: waits_def split: if_splits)

lemma answered_mem: "f \<in> set (waiting (answered a i)) \<Longrightarrow> f \<in> set (waiting a)"
  by (auto simp: answered_def dest: in_set_takeD in_set_dropD)

lemma answered_cells [simp]: "cells (answered a i) = cells a"
  by (simp add: answered_def)

lemma inv_waiting_answered: "inv_waiting a \<Longrightarrow> inv_waiting (answered a i)"
  by (auto simp: inv_waiting_def dest: answered_mem)

lemma deliver_inv_waiting:
  assumes "inv_waiting a" and "clearing a x \<longrightarrow> \<not> list_ex awaits_role (waiting a)"
  shows "inv_waiting (deliver a x)"
proof (cases x)
  case (AuthEvent cu)
  then show ?thesis using assms
    by (cases cu) (auto simp: inv_waiting_def inv_role_def list_ex_iff)
next
  case LogOutClick
  then show ?thesis using assms by (auto simp: inv_waiting_def)
next
  case GoogleSignInClick
  then show ?thesis using assms by (auto simp: inv_waiting_def)
next
  case (TokenSettled i got)
  show ?thesis
  proof (cases "waits a i")
    case None
    with TokenSettled assms(1) show ?thesis by simp
  next
    case (Some f)
    show ?thesis
    proof (cases f)
      case (AwaitToken u)
      with Some have w: "waits a i = Some (AwaitToken u)" by simp
      from waits_mem [OF w] have "\<exists>f \<in> set (waiting a). awaits_role f"
        by (rule bexI [rotated]) simp
      with assms(1) have usr: "user (cells a) \<noteq> None"
        by (simp add: inv_waiting_def)
      show ?thesis
      proof (cases got)
        case (Inl e)
        with TokenSettled w inv_waiting_answered [OF assms(1)] show ?thesis by simp
      next
        case (Inr token)
        with TokenSettled w usr assms(1) show ?thesis
          by (simp add: inv_waiting_def inv_role_def)
      qed
    qed (use TokenSettled Some assms(1) in simp_all)
  qed
next
  case (MeSettled i got)
  show ?thesis
  proof (cases "waits a i")
    case None
    with MeSettled assms(1) show ?thesis by simp
  next
    case (Some f)
    show ?thesis
    proof (cases f)
      case (AwaitMe u)
      with Some have w: "waits a i = Some (AwaitMe u)" by simp
      from waits_mem [OF w] have "\<exists>f \<in> set (waiting a). awaits_role f"
        by (rule bexI [rotated]) simp
      with assms(1) have usr: "user (cells a) \<noteq> None"
        by (simp add: inv_waiting_def)
      with MeSettled w show ?thesis
        by (cases "role_lookup got") (simp_all add: inv_waiting_def inv_role_def)
    qed (use MeSettled Some assms(1) in simp_all)
  qed
next
  case (SignOutSettled i got)
  show ?thesis
  proof (cases "waits a i")
    case None
    with SignOutSettled assms(1) show ?thesis by simp
  next
    case (Some f)
    show ?thesis
    proof (cases f)
      case (AwaitSignOut in_callback)
      with Some have w: "waits a i = Some (AwaitSignOut in_callback)" by simp
      show ?thesis
      proof (cases got)
        case (Inl e)
        with SignOutSettled w inv_waiting_answered [OF assms(1), of i] show ?thesis
          by (simp add: inv_waiting_def inv_role_def logOut_def)
      next
        case (Inr ok)
        with SignOutSettled w assms(2) have quiet: "\<forall>f \<in> set (waiting a). \<not> awaits_role f"
          by (simp add: list_ex_iff)
        then have "\<forall>f \<in> set (waiting (answered a i)). \<not> awaits_role f"
          by (blast dest: answered_mem)
        with SignOutSettled w Inr show ?thesis
          by (simp add: inv_waiting_def inv_role_def logOut_def)
      qed
    qed (use SignOutSettled Some assms(1) in simp_all)
  qed
next
  case (PopupSettled i got)
  show ?thesis
  proof (cases "waits a i")
    case None
    with PopupSettled assms(1) show ?thesis by simp
  next
    case (Some f)
    show ?thesis
    proof (cases f)
      case AwaitPopup
      with Some PopupSettled inv_waiting_answered [OF assms(1), of i] show ?thesis
        by (simp add: inv_waiting_def googleSignIn_def)
    qed (use PopupSettled Some assms(1) in simp_all)
  qed
qed

lemma deliver_inv_ready:
  assumes "inv_ready (cells a)" and "\<not> unsettling a x"
  shows "inv_ready (cells (deliver a x))"
proof (cases x)
  case (AuthEvent cu)
  then show ?thesis using assms by (cases cu) (auto simp: inv_ready_def)
next
  case (TokenSettled i got)
  then show ?thesis using assms
    by (auto simp: inv_ready_def answered_def split: option.splits wait.splits sum.splits)
next
  case (MeSettled i got)
  then show ?thesis using assms
    by (auto simp: inv_ready_def answered_def split: option.splits wait.splits sum.splits)
next
  case (SignOutSettled i got)
  then show ?thesis using assms
    by (cases got)
       (auto simp: inv_ready_def answered_def logOut_def split: option.splits wait.splits)
next
  case (PopupSettled i got)
  then show ?thesis using assms
    by (auto simp: inv_ready_def answered_def googleSignIn_def split: option.splits wait.splits)
qed (use assms in simp_all)

lemma seen_inv_role:
  "inv_waiting a \<Longrightarrow> calm a xs \<Longrightarrow> s \<in> set (seen a xs) \<Longrightarrow> inv_role s"
proof (induction xs arbitrary: a)
  case Nil
  then show ?case by (simp add: inv_waiting_def)
next
  case (Cons x xs)
  from Cons.prems(1,2) have "inv_waiting (deliver a x)" by (intro deliver_inv_waiting) simp_all
  with Cons show ?case by (auto simp: inv_waiting_def)
qed

lemma seen_inv_ready:
  "inv_ready (cells a) \<Longrightarrow> steady a xs \<Longrightarrow> s \<in> set (seen a xs) \<Longrightarrow> inv_ready s"
proof (induction xs arbitrary: a)
  case Nil
  then show ?case by simp
next
  case (Cons x xs)
  from Cons.prems(1,2) have "inv_ready (cells (deliver a x))" by (intro deliver_inv_ready) simp_all
  with Cons show ?case by auto
qed

text \<open>
  C1, as the code has it. Events and answers come in any order. No state a consumer can
  see has a role and no user, as long as the session is never cleared (by a logged-out
  event or by a sign-out that resolves) while a callback still waits for its token or for
  its role lookup. A state with \<open>loading = False\<close> and a user has a role, as long as no
  role lookup was answered with a null role and no sign-out asked for after a failed role
  lookup was rejected.
\<close>

theorem session_invariant:
  assumes "s \<in> set (seen initial_auth events)"
  shows "(calm initial_auth events \<longrightarrow> role s \<noteq> None \<longrightarrow> user s \<noteq> None)
       \<and> (steady initial_auth events \<longrightarrow> \<not> loading s \<longrightarrow> user s \<noteq> None \<longrightarrow> role s \<noteq> None)"
proof -
  have "inv_waiting initial_auth" "inv_ready (cells initial_auth)"
    by (simp_all add: inv_waiting_def inv_role_def inv_ready_def initial_auth_def
          initial_session_def)
  with assms seen_inv_role seen_inv_ready show ?thesis
    unfolding inv_role_def inv_ready_def by blast
qed

text \<open>
  A login that succeeds, then a logout by the button, then the provider's logged-out event:
  the run is calm and steady, the state after the login is seen, and it has its user and
  its role.
\<close>

theorem session_invariant_witness:
  "\<lparr>user = Some ''alice'', idToken = Some ''jwt'', role = Some Developer, loading = False\<rparr>
     \<in> set (seen initial_auth
         [AuthEvent (Some ''alice''), TokenSettled 0 (Inr ''jwt''),
          MeSettled 0 (Inr (Some (UserInfo (Some Developer)))),
          LogOutClick, SignOutSettled 0 (Inr ()), AuthEvent None])
   \<and> calm initial_auth
         [AuthEvent (Some ''alice''), TokenSettled 0 (Inr ''jwt''),
          MeSettled 0 (Inr (Some (UserInfo (Some Developer)))),
          LogOutClick, SignOutSettled 0 (Inr ()), AuthEvent None]
   \<and> steady initial_auth
         [AuthEvent (Some ''alice''), TokenSettled 0 (Inr ''jwt''),
          MeSettled 0 (Inr (Some (UserInfo (Some Developer)))),
          LogOutClick, SignOutSettled 0 (Inr ()), AuthEvent None]
   \<and> user \<lparr>user = Some ''alice'', idToken = Some ''jwt'', role = Some Developer,
            loading = False\<rparr> \<noteq> None
   \<and> role \<lparr>user = Some ''alice'', idToken = Some ''jwt'', role = Some Developer,
            loading = False\<rparr> \<noteq> None"
  using session_invariant
    [of "\<lparr>user = Some ''alice'', idToken = Some ''jwt'', role = Some Developer,
          loading = False\<rparr>"
        "[AuthEvent (Some ''alice''), TokenSettled 0 (Inr ''jwt''),
          MeSettled 0 (Inr (Some (UserInfo (Some Developer)))),
          LogOutClick, SignOutSettled 0 (Inr ()), AuthEvent None]"]
  by (simp add: auth_defs)

text \<open>
  C1 as stated fails, in three runs. The provider reports the logout while the role lookup
  of a login waits, and the lookup then resolves: the run is steady, and it ends with a
  role and no user. The role lookup fails and the sign-out asked for is rejected: the run
  is calm, and it ends with \<open>loading = False\<close>, the user set and no role. So does the calm
  run whose role lookup is answered with a null role.
\<close>

theorem session_invariant_counterexample:
  "\<lparr>user = None, idToken = None, role = Some Developer, loading = False\<rparr>
     \<in> set (seen initial_auth
         [AuthEvent (Some ''alice''), TokenSettled 0 (Inr ''jwt''), AuthEvent None,
          MeSettled 0 (Inr (Some (UserInfo (Some Developer))))])
   \<and> steady initial_auth
         [AuthEvent (Some ''alice''), TokenSettled 0 (Inr ''jwt''), AuthEvent None,
          MeSettled 0 (Inr (Some (UserInfo (Some Developer))))]
   \<and> \<lparr>user = Some ''alice'', idToken = Some ''jwt'', role = None, loading = False\<rparr>
     \<in> set (seen initial_auth
         [AuthEvent (Some ''alice''), TokenSettled 0 (Inr ''jwt''),
          MeSettled 0 (Inl NetworkError), SignOutSettled 0 (Inl ProviderError)])
   \<and> calm initial_auth
         [AuthEvent (Some ''alice''), TokenSettled 0 (Inr ''jwt''),
          MeSettled 0 (Inl NetworkError), SignOutSettled 0 (Inl ProviderError)]
   \<and> \<lparr>user = Some ''alice'', idToken = Some ''jwt'', role = None, loading = False\<rparr>
     \<in> set (seen initial_auth
         [AuthEvent (Some ''alice''), TokenSettled 0 (Inr ''jwt''),
          MeSettled 0 (Inr (Some (UserInfo None)))])
   \<and> calm initial_auth
         [AuthEvent (Some ''alice''), TokenSettled 0 (Inr ''jwt''),
          MeSettled 0 (Inr (Some (UserInfo None)))]"
  by (simp add: auth_defs)

text \<open>
  C2, as the code has it. When the role lookup of a logged-in event fails, the callback
  calls \<^verbatim>\<open>logOut\<close> once and asks for the role once. If the provider's sign-out resolves,
  the session ends with user, token and role cleared and \<open>loading = False\<close>, whatever it
  was before. If the sign-out rejects, the session keeps the new user and token and the
  role it had, with \<open>loading = False\<close>.
\<close>

theorem role_lookup_failure:
  assumes "token_result env = Inr token" and "role_lookup (me_result env) = Inl e"
  shows "(signOut_result env = Inr () \<longrightarrow>
            final (onAuthStateChanged s (Some u) env) =
              \<lparr>user = None, idToken = None, role = None, loading = False\<rparr>)
       \<and> (\<forall>e'. signOut_result env = Inl e' \<longrightarrow>
            final (onAuthStateChanged s (Some u) env) =
              s\<lparr>user := Some u, idToken := Some token, loading := False\<rparr>)
       \<and> calls (onAuthStateChanged s (Some u) env) =
            [GetIdToken u, ApiGet ''/users/me'', SignOut]"
  using assms by (simp add: onAuthStateChanged_def logOut_def Let_def)

text \<open>
  An administrator's session and a new login whose role lookup fails: with a sign-out that
  works the session ends cleared; with a sign-out that fails it ends with the new user, her
  token and the administrator's role.
\<close>

theorem role_lookup_failure_witness:
  "token_result \<lparr>token_result = Inr ''jwt'', me_result = Inl NetworkError,
                 signOut_result = Inr ()\<rparr> = Inr ''jwt''
   \<and> role_lookup (me_result \<lparr>token_result = Inr ''jwt'', me_result = Inl NetworkError,
                 signOut_result = Inr ()\<rparr>) = Inl NetworkError
   \<and> final (onAuthStateChanged
        \<lparr>user = Some ''root'', idToken = Some ''old'', role = Some Admin, loading = False\<rparr>
        (Some ''alice'')
        \<lparr>token_result = Inr ''jwt'', me_result = Inl NetworkError, signOut_result = Inr ()\<rparr>)
     = \<lparr>user = None, idToken = None, role = None, loading = False\<rparr>
   \<and> calls (onAuthStateChanged
        \<lparr>user = Some ''root'', idToken = Some ''old'', role = Some Admin, loading = False\<rparr>
        (Some ''alice'')
        \<lparr>token_result = Inr ''jwt'', me_result = Inl NetworkError, signOut_result = Inr ()\<rparr>)
     = [GetIdToken ''alice'', ApiGet ''/users/me'', SignOut]
   \<and> final (onAuthStateChanged
        \<lparr>user = Some ''root'', idToken = Some ''old'', role = Some Admin, loading = False\<rparr>
        (Some ''alice'')
        \<lparr>token_result = Inr ''jwt'', me_result = Inl NetworkError,
         signOut_result = Inl ProviderError\<rparr>)
     = \<lparr>user = Some ''alice'', idToken = Some ''jwt'', role = Some Admin, loading = False\<rparr>"
  using role_lookup_failure
    [of "\<lparr>token_result = Inr ''jwt'', me_result = Inl NetworkError, signOut_result = Inr ()\<rparr>"
        "''jwt''" NetworkError
        "\<lparr>user = Some ''root'', idToken = Some ''old'', role = Some Admin, loading = False\<rparr>"
        "''alice''"]
    role_lookup_failure
    [of "\<lparr>token_result = Inr ''jwt'', me_result = Inl NetworkError,
          signOut_result = Inl ProviderError\<rparr>"
        "''jwt''" NetworkError
        "\<lparr>user = Some ''root'', idToken = Some ''old'', role = Some Admin, loading = False\<rparr>"
        "''alice''"]
  by (simp add: role_lookup_def)

text \<open>
  C2 as stated fails when the sign-out rejects: the session is left with the user and the
  token, not logged out.
\<close>

theorem role_lookup_failure_counterexample:
  "final (onAuthStateChanged initial_session (Some ''alice'')
       \<lparr>token_result = Inr ''jwt'', me_result = Inl NetworkError,
        signOut_result = Inl ProviderError\<rparr>)
   = \<lparr>user = Some ''alice'', idToken = Some ''jwt'', role = None, loading = False\<rparr>"
  by (simp add: initial_session_def onAuthStateChanged_def role_lookup_def logOut_def Let_def)

text \<open>
  C7, as the code has it. \<^verbatim>\<open>logOut\<close> clears user, token and role when the provider's
  sign-out resolves, and leaves \<open>loading\<close> as it was. The subscription's logged-out branch
  clears the three from any state and ends with \<open>loading = False\<close>; this is what clears the
  session when a sign-out rejects after the provider has reported the logout. When the
  sign-out rejects, \<^verbatim>\<open>logOut\<close> itself changes nothing.
\<close>

theorem logOut_clears:
  "logOut s (Inr ()) = s\<lparr>user := None, idToken := None, role := None\<rparr>
   \<and> final (onAuthStateChanged s None env) =
       \<lparr>user = None, idToken = None, role = None, loading = False\<rparr>
   \<and> final (onAuthStateChanged (logOut s (Inl e)) None env) =
       \<lparr>user = None, idToken = None, role = None, loading = False\<rparr>
   \<and> logOut s (Inl e) = s"
  by (simp add: logOut_def onAuthStateChanged_def Let_def)

text \<open>C7 as stated fails: the sign-out rejects and the session is as it was, user and all.\<close>

theorem logOut_clears_counterexample:
  "logOut \<lparr>user = Some ''alice'', idToken = Some ''jwt'', role = Some Admin, loading = False\<rparr>
     (Inl ProviderError)
   = \<lparr>user = Some ''alice'', idToken = Some ''jwt'', role = Some Admin, loading = False\<rparr>"
  by (simp add: logOut_def)

section \<open>Properties of apiClient\<close>

text \<open>
  C9, as the code has it. The credential of a request is asked of the identity provider at
  every request: it is there exactly when the provider has a current user and its
  \<^verbatim>\<open>getIdToken\<close> resolves, and it is what the request carries as its bearer token. With
  no current user the request fails with "No authenticated user found."; any failure to
  get the credential is the failure of the request. The session is no argument of
  \<^verbatim>\<open>fetchFromApi\<close>: neither its \<open>loading\<close> and \<open>role\<close> nor its stored \<open>idToken\<close> are read.
\<close>

theorem fetchFromApi_credential:
  "(fetchFromApi_token w = Inr token \<longleftrightarrow>
      (\<exists>u. auth_currentUser w = Some u \<and> getIdToken w u = Inr token))
   \<and> (auth_currentUser w = None \<longrightarrow>
        fetchFromApi_token w = Inl (Error ''No authenticated user found.''))
   \<and> (fetchFromApi_token w = Inl e \<longrightarrow> fetchFromApi w endpoint opts = Inl e)
   \<and> (fetchFromApi_token w = Inr token \<longrightarrow>
        (\<exists>req. fetchFromApi_request w endpoint opts = Inr req
           \<and> req_headers req ''Authorization'' = Some (''Bearer '' @ token)))"
  by (auto simp: fetchFromApi_token_def fetchFromApi_request_def fetchFromApi_def
           split: option.splits sum.splits)

text \<open>A signed-in user gets her token into the header; with no user the request fails.\<close>

theorem fetchFromApi_credential_witness:
  "auth_currentUser example_api = Some ''alice''
   \<and> fetchFromApi_token example_api = Inr ''jwt''
   \<and> map_sum id (\<lambda>req. req_headers req ''Authorization'')
        (fetchFromApi_request example_api ''/users/me'' no_options) = Inr (Some ''Bearer jwt'')
   \<and> auth_currentUser (example_api\<lparr>auth_currentUser := None\<rparr>) = None
   \<and> fetchFromApi_token (example_api\<lparr>auth_currentUser := None\<rparr>)
        = Inl (Error ''No authenticated user found.'')
   \<and> fetchFromApi (example_api\<lparr>auth_currentUser := None\<rparr>) ''/users/me'' no_options
        = Inl (Error ''No authenticated user found.'')"
  using fetchFromApi_credential
      [of example_api "''jwt''" "Error ''No authenticated user found.''" "''/users/me''"
          no_options]
    fetchFromApi_credential
      [of "example_api\<lparr>auth_currentUser := None\<rparr>" "''jwt''"
          "Error ''No authenticated user found.''" "''/users/me''" no_options]
  by (auto simp: example_api_def)

text \<open>
  C9 as stated fails: while the callback waits for the role lookup the session is not ready
  (\<open>loading = True\<close>, no role), and the lookup itself, a request of \<^verbatim>\<open>apiClient\<close>, gets the
  credential and its answer.
\<close>

theorem fetchFromApi_credential_counterexample:
  "\<lparr>user = Some ''alice'', idToken = Some ''jwt'', role = None, loading = True\<rparr>
     \<in> set (published (onAuthStateChanged initial_session (Some ''alice'')
          \<lparr>token_result = Inr ''jwt'',
           me_result = apiClient_get example_api ''/users/me'' no_options,
           signOut_result = Inr ()\<rparr>))
   \<and> fetchFromApi_token example_api = Inr ''jwt''
   \<and> apiClient_get example_api ''/users/me'' no_options = Inr (Some (UserInfo (Some Developer)))"
  by (simp add: example_api_def onAuthStateChanged_def initial_session_def role_lookup_def
        apiClient_get_def fetchFromApi_def fetchFromApi_request_def fetchFromApi_token_def
        no_options_def Let_def)

section \<open>Properties of the board\<close>

lemmas example_defs = example_task_def example_board_def initial_dashboard_def

lemmas board_defs = handleDragEnd_begin_def handleDragEnd_resume_def fetchTasks_begin_def
  fetchTasks_resume_def suspend_def settled_def Let_def

text \<open>With identifiers that are keys, \<^verbatim>\<open>tasks.find\<close> by a task's identifier finds that task.\<close>

lemma find_distinct_key:
  "distinct (map f xs) \<Longrightarrow> t \<in> set xs \<Longrightarrow> find (\<lambda>x. f x = f t) xs = Some t"
  by (induction xs) (auto simp: image_iff)

lemma find_moved:
  "find (\<lambda>x. taskId x = tid) xs = Some t \<Longrightarrow>
   find (\<lambda>x. taskId x = tid)
     (map (\<lambda>x. if taskId x = tid then x\<lparr>status := S\<rparr> else x) xs) = Some (t\<lparr>status := S\<rparr>)"
  by (induction xs) (auto split: if_splits)

lemma begin_moves:
  assumes "find (\<lambda>x. taskId x = tid) (tasks d) = Some t" and "status t \<noteq> S"
  shows "handleDragEnd_begin d \<lparr>active_id = tid, over_id = Some S\<rparr> =
           (d\<lparr>activeTask := None,
              tasks := map (\<lambda>x. if taskId x = tid then x\<lparr>status := S\<rparr> else x) (tasks d)\<rparr>,
            Some (AwaitPut tid S t))"
  using assms by (simp add: handleDragEnd_begin_def Let_def)

lemma step_moves:
  assumes "find (\<lambda>x. taskId x = tid) (tasks (ui b)) = Some t" and "status t \<noteq> S"
  shows "step b (DragEnd \<lparr>active_id = tid, over_id = Some S\<rparr>) =
           b\<lparr>ui := (ui b)\<lparr>activeTask := None,
                 tasks := map (\<lambda>x. if taskId x = tid then x\<lparr>status := S\<rparr> else x)
                            (tasks (ui b))\<rparr>,
             inflight := inflight b @ [AwaitPut tid S t],
             requests := requests b @ [ApiPut (''/tasks/'' @ tid @ ''/status'') S]\<rparr>"
  by (simp add: begin_moves [OF assms] suspend_def)

lemma step_put_settled:
  assumes "inflight b = fs @ [AwaitPut tid S t]"
  shows "step b (PutSettled (length fs) (Inr ())) = b\<lparr>inflight := fs\<rparr>"
    and "step b (PutSettled (length fs) (Inl e)) =
           b\<lparr>ui := (ui b)\<lparr>loading_tasks := True, error := None\<rparr>,
             inflight := fs @ [AwaitGet],
             requests := requests b @ [ApiGet ''/tasks/my'']\<rparr>"
  using assms
  by (simp_all add: handleDragEnd_resume_def fetchTasks_begin_def suspend_def settled_def)

lemma step_get_settled:
  assumes "inflight b = fs @ [AwaitGet]"
  shows "step b (GetSettled (length fs) got) =
           b\<lparr>ui := fetchTasks_resume (ui b) got, inflight := fs\<rparr>"
  using assms by (simp add: settled_def)

lemma step_get_failed:
  assumes "i < length (inflight b)" and "inflight b ! i = AwaitGet"
  shows "step b (GetSettled i (Inl e)) =
           b\<lparr>ui := (ui b)\<lparr>error := Some ''Failed to fetch tasks.'', loading_tasks := False\<rparr>,
             inflight := take i (inflight b) @ drop (Suc i) (inflight b)\<rparr>"
  using assms by (simp add: settled_def fetchTasks_resume_def)

lemma step_put_failed:
  assumes "i < length (inflight b)" and "inflight b ! i = AwaitPut tid S t"
  shows "step b (PutSettled i (Inl e)) =
           b\<lparr>ui := (ui b)\<lparr>loading_tasks := True, error := None\<rparr>,
             inflight := take i (inflight b) @ drop (Suc i) (inflight b) @ [AwaitGet],
             requests := requests b @ [ApiGet ''/tasks/my'']\<rparr>"
  using assms
  by (simp add: handleDragEnd_resume_def fetchTasks_begin_def suspend_def settled_def)

lemma step_get_resolved:
  assumes "i < length (inflight b)" and "inflight b ! i = AwaitGet"
  shows "step b (GetSettled i (Inr taskData)) =
           b\<lparr>ui := (ui b)\<lparr>tasks := taskData, loading_tasks := False\<rparr>,
             inflight := take i (inflight b) @ drop (Suc i) (inflight b)\<rparr>"
  using assms by (simp add: settled_def fetchTasks_resume_def)

lemma step_put_resolved:
  assumes "i < length (inflight b)" and "inflight b ! i = AwaitPut tid S t"
  shows "step b (PutSettled i (Inr ())) =
           b\<lparr>inflight := take i (inflight b) @ drop (Suc i) (inflight b)\<rparr>"
  using assms by (simp add: handleDragEnd_resume_def suspend_def settled_def)

lemma restatus_twice:
  "map (\<lambda>x. if taskId x = tid then x\<lparr>status := S\<rparr> else x)
     (map (\<lambda>x. if taskId x = tid then x\<lparr>status := P\<rparr> else x) xs) =
   map (\<lambda>x. if taskId x = tid then x\<lparr>status := S\<rparr> else x) xs"
  by (induction xs) auto

lemma step_stays:
  assumes "find (\<lambda>x. taskId x = active_id event) (tasks (ui b)) = None
           \<or> over_id event = None
           \<or> (\<exists>t. find (\<lambda>x. taskId x = active_id event) (tasks (ui b)) = Some t
                \<and> over_id event = Some (status t))"
  shows "step b (DragEnd event) = b\<lparr>ui := (ui b)\<lparr>activeTask := None\<rparr>\<rparr>"
  using assms
  by (auto simp: handleDragEnd_begin_def suspend_def Let_def split: option.splits)

text \<open>
  C3. The identifiers of the cached tasks being keys, dropping a task \<open>t\<close> on a column \<open>S\<close>
  other than its own sets the status of \<open>t\<close> in the list to \<open>S\<close> and leaves every other task
  as it was, in the very step that sends the \<^verbatim>\<open>PUT\<close>: the handler then waits for the
  answer, which is no argument of this step, and the event loop has control again.
\<close>

theorem optimistic_update:
  assumes "t \<in> set (tasks (ui b))" and "distinct (map taskId (tasks (ui b)))"
    and "status t \<noteq> S"
  shows "tasks (ui (step b (DragEnd \<lparr>active_id = taskId t, over_id = Some S\<rparr>))) =
           map (\<lambda>x. if taskId x = taskId t then x\<lparr>status := S\<rparr> else x) (tasks (ui b))
       \<and> find (\<lambda>x. taskId x = taskId t)
           (tasks (ui (step b (DragEnd \<lparr>active_id = taskId t, over_id = Some S\<rparr>)))) =
           Some (t\<lparr>status := S\<rparr>)
       \<and> inflight (step b (DragEnd \<lparr>active_id = taskId t, over_id = Some S\<rparr>)) =
           inflight b @ [AwaitPut (taskId t) S t]
       \<and> requests (step b (DragEnd \<lparr>active_id = taskId t, over_id = Some S\<rparr>)) =
           requests b @ [ApiPut (''/tasks/'' @ taskId t @ ''/status'') S]"
proof -
  have found: "find (\<lambda>x. taskId x = taskId t) (tasks (ui b)) = Some t"
    using assms(1,2) by (rule find_distinct_key [rotated])
  show ?thesis
    by (simp add: step_moves [OF found assms(3)] find_moved [OF found] del: step.simps)
qed

text \<open>Task t1 is moved from "To-Do" to "In Progress".\<close>

theorem optimistic_update_witness:
  "example_task \<in> set (tasks (ui example_board))
   \<and> distinct (map taskId (tasks (ui example_board)))
   \<and> status example_task \<noteq> ''In Progress''
   \<and> tasks (ui (step example_board (DragEnd \<lparr>active_id = ''t1'', over_id = Some ''In Progress''\<rparr>)))
       = [example_task\<lparr>status := ''In Progress''\<rparr>]
   \<and> inflight (step example_board (DragEnd \<lparr>active_id = ''t1'', over_id = Some ''In Progress''\<rparr>))
       = [AwaitPut ''t1'' ''In Progress'' example_task]
   \<and> requests (step example_board (DragEnd \<lparr>active_id = ''t1'', over_id = Some ''In Progress''\<rparr>))
       = [ApiPut ''/tasks/t1/status'' ''In Progress'']"
  using optimistic_update [of example_task example_board "''In Progress''"]
  by (simp add: example_defs)

text \<open>
  C4. When the \<^verbatim>\<open>PUT\<close> of a move is rejected, the handler calls \<^verbatim>\<open>fetchTasks\<close>: a
  \<^verbatim>\<open>GET /tasks/my\<close> is sent and the list stays as the move left it until the answer is
  there. The list is then the list the backend answered with, whatever it is: nothing of
  the status before the move or of the status aimed at is put back. This holds for a move
  answered at once, and one answer at a time for every waiting \<^verbatim>\<open>PUT\<close> that is rejected
  and every waiting \<^verbatim>\<open>GET\<close> that resolves, whatever else is in flight.
\<close>

theorem resync_after_failed_update:
  assumes "t \<in> set (tasks (ui b))" and "distinct (map taskId (tasks (ui b)))"
    and "status t \<noteq> S"
  shows "(let b1 = step b (DragEnd \<lparr>active_id = taskId t, over_id = Some S\<rparr>);
              b2 = step b1 (PutSettled (length (inflight b)) (Inl e));
              b3 = step b2 (GetSettled (length (inflight b)) (Inr backend))
          in requests b2 = requests b1 @ [ApiGet ''/tasks/my'']
           \<and> inflight b2 = inflight b @ [AwaitGet]
           \<and> tasks (ui b2) = tasks (ui b1)
           \<and> tasks (ui b3) = backend
           \<and> inflight b3 = inflight b)
       \<and> (i < length (inflight b') \<and> inflight b' ! i = AwaitPut tid S' t' \<longrightarrow>
            requests (step b' (PutSettled i (Inl e))) = requests b' @ [ApiGet ''/tasks/my'']
            \<and> inflight (step b' (PutSettled i (Inl e))) =
                take i (inflight b') @ drop (Suc i) (inflight b') @ [AwaitGet]
            \<and> tasks (ui (step b' (PutSettled i (Inl e)))) = tasks (ui b'))
       \<and> (j < length (inflight b'') \<and> inflight b'' ! j = AwaitGet \<longrightarrow>
            tasks (ui (step b'' (GetSettled j (Inr backend)))) = backend)"
proof -
  have found: "find (\<lambda>x. taskId x = taskId t) (tasks (ui b)) = Some t"
    using assms(1,2) by (rule find_distinct_key [rotated])
  define b1 where "b1 = step b (DragEnd \<lparr>active_id = taskId t, over_id = Some S\<rparr>)"
  define b2 where "b2 = step b1 (PutSettled (length (inflight b)) (Inl e))"
  have i1: "inflight b1 = inflight b @ [AwaitPut (taskId t) S t]"
    unfolding b1_def by (simp add: step_moves [OF found assms(3)] del: step.simps)
  have s2: "b2 = b1\<lparr>ui := (ui b1)\<lparr>loading_tasks := True, error := None\<rparr>,
                    inflight := inflight b @ [AwaitGet],
                    requests := requests b1 @ [ApiGet ''/tasks/my'']\<rparr>"
    unfolding b2_def by (rule step_put_settled(2) [OF i1])
  have i2: "inflight b2 = inflight b @ [AwaitGet]" by (simp add: s2)
  have s3: "step b2 (GetSettled (length (inflight b)) (Inr backend)) =
              b2\<lparr>ui := fetchTasks_resume (ui b2) (Inr backend), inflight := inflight b\<rparr>"
    by (rule step_get_settled [OF i2])
  have scenario:
    "let b1 = step b (DragEnd \<lparr>active_id = taskId t, over_id = Some S\<rparr>);
         b2 = step b1 (PutSettled (length (inflight b)) (Inl e));
         b3 = step b2 (GetSettled (length (inflight b)) (Inr backend))
     in requests b2 = requests b1 @ [ApiGet ''/tasks/my'']
      \<and> inflight b2 = inflight b @ [AwaitGet]
      \<and> tasks (ui b2) = tasks (ui b1)
      \<and> tasks (ui b3) = backend
      \<and> inflight b3 = inflight b"
    unfolding Let_def b1_def [symmetric] b2_def [symmetric] s3
    by (simp add: s2 fetchTasks_resume_def)
  have put: "i < length (inflight b') \<and> inflight b' ! i = AwaitPut tid S' t' \<longrightarrow>
            requests (step b' (PutSettled i (Inl e))) = requests b' @ [ApiGet ''/tasks/my'']
            \<and> inflight (step b' (PutSettled i (Inl e))) =
                take i (inflight b') @ drop (Suc i) (inflight b') @ [AwaitGet]
            \<and> tasks (ui (step b' (PutSettled i (Inl e)))) = tasks (ui b')"
    by (simp add: step_put_failed del: step.simps)
  have get: "j < length (inflight b'') \<and> inflight b'' ! j = AwaitGet \<longrightarrow>
            tasks (ui (step b'' (GetSettled j (Inr backend)))) = backend"
    by (simp add: step_get_resolved del: step.simps)
  from scenario put get show ?thesis by blast
qed

text \<open>
  Task t1 is moved from "To-Do" to "Done", the backend answers the \<^verbatim>\<open>PUT\<close> with an
  error and the \<^verbatim>\<open>GET\<close> with t1 "In Review": the list ends with t1 "In Review".
\<close>

theorem resync_after_failed_update_witness:
  "example_task \<in> set (tasks (ui example_board))
   \<and> distinct (map taskId (tasks (ui example_board)))
   \<and> status example_task \<noteq> ''Done''
   \<and> 0 < length (inflight (step example_board
        (DragEnd \<lparr>active_id = ''t1'', over_id = Some ''Done''\<rparr>)))
   \<and> inflight (step example_board
        (DragEnd \<lparr>active_id = ''t1'', over_id = Some ''Done''\<rparr>)) ! 0
       = AwaitPut ''t1'' ''Done'' example_task
   \<and> requests (step (step example_board
        (DragEnd \<lparr>active_id = ''t1'', over_id = Some ''Done''\<rparr>))
        (PutSettled 0 (Inl (Error ''API request failed''))))
       = [ApiPut ''/tasks/t1/status'' ''Done'', ApiGet ''/tasks/my'']
   \<and> inflight (step (step example_board
        (DragEnd \<lparr>active_id = ''t1'', over_id = Some ''Done''\<rparr>))
        (PutSettled 0 (Inl (Error ''API request failed'')))) ! 0
       = AwaitGet
   \<and> tasks (ui (step (step (step example_board
        (DragEnd \<lparr>active_id = ''t1'', over_id = Some ''Done''\<rparr>))
        (PutSettled 0 (Inl (Error ''API request failed''))))
        (GetSettled 0 (Inr [example_task\<lparr>status := ''In Review''\<rparr>]))))
       = [example_task\<lparr>status := ''In Review''\<rparr>]"
  using resync_after_failed_update
    [of example_task example_board "''Done''" "Error ''API request failed''"
        "[example_task\<lparr>status := ''In Review''\<rparr>]"
        0 "step example_board (DragEnd \<lparr>active_id = ''t1'', over_id = Some ''Done''\<rparr>)"
        "''t1''" "''Done''" example_task
        0 "step (step example_board (DragEnd \<lparr>active_id = ''t1'', over_id = Some ''Done''\<rparr>))
             (PutSettled 0 (Inl (Error ''API request failed'')))"]
  by (simp add: example_defs board_defs)

text \<open>
  C5, as the code has it. The component keeps no record of a move. A drop that passes the
  checks sets the status aimed at in the list, clears the drag overlay and sends one
  \<^verbatim>\<open>PUT\<close>: the cells and the request are the same whatever the status was before, which
  is left only in the variable \<^verbatim>\<open>currentTask\<close> of the waiting call, read by nothing
  after the \<^verbatim>\<open>await\<close>. What is pending until the backend answers is that call of
  \<^verbatim>\<open>handleDragEnd\<close> alone. When the \<^verbatim>\<open>PUT\<close> resolves, the cells and the requests are
  left as the move made them; when it is rejected, the handler starts the reload. Either
  answer ends this call only: the calls that still wait for the task are those that waited
  before the move.
\<close>

theorem transition_settlement:
  assumes "t \<in> set (tasks (ui b))" and "distinct (map taskId (tasks (ui b)))"
    and "status t \<noteq> S"
  shows "(let b1 = step b (DragEnd \<lparr>active_id = taskId t, over_id = Some S\<rparr>);
              was = (\<lambda>P. b\<lparr>ui := (ui b)\<lparr>tasks :=
                       map (\<lambda>x. if taskId x = taskId t then x\<lparr>status := P\<rparr> else x)
                         (tasks (ui b))\<rparr>\<rparr>);
              ok = step b1 (PutSettled (length (inflight b)) (Inr ()));
              ko = step b1 (PutSettled (length (inflight b)) (Inl e))
          in ui b1 = (ui b)\<lparr>activeTask := None,
                       tasks := map (\<lambda>x. if taskId x = taskId t then x\<lparr>status := S\<rparr> else x)
                                  (tasks (ui b))\<rparr>
           \<and> requests b1 = requests b @ [ApiPut (''/tasks/'' @ taskId t @ ''/status'') S]
           \<and> (P \<noteq> S \<longrightarrow>
                ui (step (was P) (DragEnd \<lparr>active_id = taskId t, over_id = Some S\<rparr>)) = ui b1
                \<and> requests (step (was P) (DragEnd \<lparr>active_id = taskId t, over_id = Some S\<rparr>))
                    = requests b1)
           \<and> ui ok = ui b1 \<and> requests ok = requests b1
           \<and> ui ko = (ui b1)\<lparr>loading_tasks := True, error := None\<rparr>
           \<and> requests ko = requests b1 @ [ApiGet ''/tasks/my'']
           \<and> pending ok (taskId t) = pending b (taskId t)
           \<and> pending ko (taskId t) = pending b (taskId t))
       \<and> (i < length (inflight b') \<and> inflight b' ! i = AwaitPut tid S' t' \<longrightarrow>
            ui (step b' (PutSettled i (Inr ()))) = ui b'
            \<and> requests (step b' (PutSettled i (Inr ()))) = requests b'
            \<and> inflight (step b' (PutSettled i (Inr ()))) =
                take i (inflight b') @ drop (Suc i) (inflight b'))"
proof -
  let ?ev = "DragEnd \<lparr>active_id = taskId t, over_id = Some S\<rparr>"
  let ?set = "\<lambda>P x. if taskId x = taskId t then x\<lparr>status := P\<rparr> else x"
  have found: "find (\<lambda>x. taskId x = taskId t) (tasks (ui b)) = Some t"
    using assms(1,2) by (rule find_distinct_key [rotated])
  define b1 where "b1 = step b ?ev"
  have s1: "b1 = b\<lparr>ui := (ui b)\<lparr>activeTask := None, tasks := map (?set S) (tasks (ui b))\<rparr>,
                    inflight := inflight b @ [AwaitPut (taskId t) S t],
                    requests := requests b @ [ApiPut (''/tasks/'' @ taskId t @ ''/status'') S]\<rparr>"
    unfolding b1_def by (rule step_moves [OF found assms(3)])
  have i1: "inflight b1 = inflight b @ [AwaitPut (taskId t) S t]" by (simp add: s1)
  note ok = step_put_settled(1) [OF i1] and ko = step_put_settled(2) [OF i1, of e]
  have other: "ui (step (b\<lparr>ui := (ui b)\<lparr>tasks := map (?set P) (tasks (ui b))\<rparr>\<rparr>) ?ev) = ui b1
             \<and> requests (step (b\<lparr>ui := (ui b)\<lparr>tasks := map (?set P) (tasks (ui b))\<rparr>\<rparr>) ?ev)
                 = requests b1" if "P \<noteq> S" for P
  proof -
    let ?b = "b\<lparr>ui := (ui b)\<lparr>tasks := map (?set P) (tasks (ui b))\<rparr>\<rparr>"
    have "find (\<lambda>x. taskId x = taskId t) (tasks (ui ?b)) = Some (t\<lparr>status := P\<rparr>)"
      using find_moved [OF found, of P] by simp
    moreover have "status (t\<lparr>status := P\<rparr>) \<noteq> S" using that by simp
    ultimately have "step ?b ?ev =
        ?b\<lparr>ui := (ui ?b)\<lparr>activeTask := None, tasks := map (?set S) (tasks (ui ?b))\<rparr>,
           inflight := inflight ?b @ [AwaitPut (taskId t) S (t\<lparr>status := P\<rparr>)],
           requests := requests ?b @ [ApiPut (''/tasks/'' @ taskId t @ ''/status'') S]\<rparr>"
      by (rule step_moves)
    then show ?thesis by (simp add: s1 restatus_twice)
  qed
  have scenario: "ui b1 = (ui b)\<lparr>activeTask := None, tasks := map (?set S) (tasks (ui b))\<rparr>
           \<and> requests b1 = requests b @ [ApiPut (''/tasks/'' @ taskId t @ ''/status'') S]
           \<and> ui (step b1 (PutSettled (length (inflight b)) (Inr ()))) = ui b1
           \<and> requests (step b1 (PutSettled (length (inflight b)) (Inr ()))) = requests b1
           \<and> ui (step b1 (PutSettled (length (inflight b)) (Inl e)))
               = (ui b1)\<lparr>loading_tasks := True, error := None\<rparr>
           \<and> requests (step b1 (PutSettled (length (inflight b)) (Inl e)))
               = requests b1 @ [ApiGet ''/tasks/my'']
           \<and> pending (step b1 (PutSettled (length (inflight b)) (Inr ()))) (taskId t)
               = pending b (taskId t)
           \<and> pending (step b1 (PutSettled (length (inflight b)) (Inl e))) (taskId t)
               = pending b (taskId t)"
    unfolding ok ko by (simp add: s1 pending_def)
  have general: "i < length (inflight b') \<and> inflight b' ! i = AwaitPut tid S' t' \<longrightarrow>
            ui (step b' (PutSettled i (Inr ()))) = ui b'
            \<and> requests (step b' (PutSettled i (Inr ()))) = requests b'
            \<and> inflight (step b' (PutSettled i (Inr ()))) =
                take i (inflight b') @ drop (Suc i) (inflight b')"
    by (simp add: step_put_resolved del: step.simps)
  from scenario other general show ?thesis
    unfolding Let_def b1_def [symmetric] by blast
qed

text \<open>
  Task t1 is moved from "To-Do" to "Done" and the backend accepts: the list ends with t1
  "Done", one request was sent and no call waits for t1. Had t1 been "In Progress", the
  cells and the request would be the same.
\<close>

theorem transition_settlement_witness:
  "example_task \<in> set (tasks (ui example_board))
   \<and> distinct (map taskId (tasks (ui example_board)))
   \<and> status example_task \<noteq> ''Done''
   \<and> ''In Progress'' \<noteq> ''Done''
   \<and> ui (step (example_board\<lparr>ui := (ui example_board)
                   \<lparr>tasks := [example_task\<lparr>status := ''In Progress''\<rparr>]\<rparr>\<rparr>)
            (DragEnd \<lparr>active_id = ''t1'', over_id = Some ''Done''\<rparr>))
       = ui (step example_board (DragEnd \<lparr>active_id = ''t1'', over_id = Some ''Done''\<rparr>))
   \<and> tasks (ui (step (step example_board
         (DragEnd \<lparr>active_id = ''t1'', over_id = Some ''Done''\<rparr>)) (PutSettled 0 (Inr ()))))
       = [example_task\<lparr>status := ''Done''\<rparr>]
   \<and> requests (step (step example_board
         (DragEnd \<lparr>active_id = ''t1'', over_id = Some ''Done''\<rparr>)) (PutSettled 0 (Inr ())))
       = [ApiPut ''/tasks/t1/status'' ''Done'']
   \<and> pending (step (step example_board
         (DragEnd \<lparr>active_id = ''t1'', over_id = Some ''Done''\<rparr>)) (PutSettled 0 (Inr ()))) ''t1''
       = []
   \<and> 0 < length (inflight (step example_board
         (DragEnd \<lparr>active_id = ''t1'', over_id = Some ''Done''\<rparr>)))
   \<and> inflight (step example_board
         (DragEnd \<lparr>active_id = ''t1'', over_id = Some ''Done''\<rparr>)) ! 0
       = AwaitPut ''t1'' ''Done'' example_task"
  using transition_settlement
    [where t = example_task and b = example_board and S = "''Done''"
       and P = "''In Progress''" and e = NetworkError and i = 0
       and b' = "step example_board (DragEnd \<lparr>active_id = ''t1'', over_id = Some ''Done''\<rparr>)"
       and tid = "''t1''" and S' = "''Done''" and t' = example_task]
  by (simp add: example_defs board_defs pending_def)

text \<open>
  C5 as stated fails. No record of the status before the move is kept: moved to "Done",
  a task that was "To-Do" and the same task "In Progress" leave the same cells and the
  same requests. And a call can wait for the task after a settlement: t1 is moved to
  "Done" and then to "In Review" before any answer, the second \<^verbatim>\<open>PUT\<close> resolves, and
  the first move still waits.
\<close>

theorem transition_settlement_counterexample:
  "ui (step example_board (DragEnd \<lparr>active_id = ''t1'', over_id = Some ''Done''\<rparr>))
     = ui (step (example_board\<lparr>ui := (ui example_board)
                   \<lparr>tasks := [example_task\<lparr>status := ''In Progress''\<rparr>]\<rparr>\<rparr>)
            (DragEnd \<lparr>active_id = ''t1'', over_id = Some ''Done''\<rparr>))
   \<and> requests (step example_board (DragEnd \<lparr>active_id = ''t1'', over_id = Some ''Done''\<rparr>))
     = requests (step (example_board\<lparr>ui := (ui example_board)
                   \<lparr>tasks := [example_task\<lparr>status := ''In Progress''\<rparr>]\<rparr>\<rparr>)
            (DragEnd \<lparr>active_id = ''t1'', over_id = Some ''Done''\<rparr>))
   \<and> pending (step (step (step example_board
         (DragEnd \<lparr>active_id = ''t1'', over_id = Some ''Done''\<rparr>))
         (DragEnd \<lparr>active_id = ''t1'', over_id = Some ''In Review''\<rparr>))
         (PutSettled 1 (Inr ()))) ''t1''
     = [AwaitPut ''t1'' ''Done'' example_task]"
  by (simp add: example_defs board_defs pending_def)

text \<open>
  C6. The identifiers of the cached tasks being keys, dropping a task on the column of the
  status it already has changes nothing but the drag overlay (\<open>activeTask\<close> is cleared): the
  list is the same, no request is sent, no call waits, and the handler has returned.
\<close>

theorem same_status_noop:
  assumes "t \<in> set (tasks (ui b))" and "distinct (map taskId (tasks (ui b)))"
  shows "step b (DragEnd \<lparr>active_id = taskId t, over_id = Some (status t)\<rparr>) =
           b\<lparr>ui := (ui b)\<lparr>activeTask := None\<rparr>\<rparr>
       \<and> tasks (ui (step b (DragEnd \<lparr>active_id = taskId t, over_id = Some (status t)\<rparr>))) =
           tasks (ui b)
       \<and> inflight (step b (DragEnd \<lparr>active_id = taskId t, over_id = Some (status t)\<rparr>)) =
           inflight b
       \<and> requests (step b (DragEnd \<lparr>active_id = taskId t, over_id = Some (status t)\<rparr>)) =
           requests b"
proof -
  have found: "find (\<lambda>x. taskId x = taskId t) (tasks (ui b)) = Some t"
    using assms by (rule find_distinct_key [rotated])
  have "step b (DragEnd \<lparr>active_id = taskId t, over_id = Some (status t)\<rparr>) =
          b\<lparr>ui := (ui b)\<lparr>activeTask := None\<rparr>\<rparr>"
    by (rule step_stays) (simp add: found)
  then show ?thesis by simp
qed

text \<open>Task t1, "To-Do", is dropped on "To-Do".\<close>

theorem same_status_noop_witness:
  "example_task \<in> set (tasks (ui example_board))
   \<and> distinct (map taskId (tasks (ui example_board)))
   \<and> step example_board (DragEnd \<lparr>active_id = ''t1'', over_id = Some ''To-Do''\<rparr>) = example_board"
  using same_status_noop [of example_task example_board]
  by (simp add: example_defs)

text \<open>
  C8. A load whose \<^verbatim>\<open>GET\<close> is rejected leaves the list of tasks as it was, while it runs
  and after it: the cells end as they were before the call but for the error message, which
  is set, and the busy flag, which the call raises while it runs and which is down after it.
  The load on mount and the load of the refresh button are the same call. Whenever a
  waiting \<^verbatim>\<open>GET\<close> is rejected, however the load was started and whatever happened since,
  the answer changes the error message and the busy flag and nothing else.
\<close>

theorem failed_load_keeps_tasks:
  "(let b1 = step b RefreshClick;
        b2 = step b1 (GetSettled (length (inflight b)) (Inl e))
    in tasks (ui b1) = tasks (ui b)
     \<and> requests b1 = requests b @ [ApiGet ''/tasks/my'']
     \<and> tasks (ui b2) = tasks (ui b)
     \<and> ui b2 = (ui b)\<lparr>loading_tasks := False, error := Some ''Failed to fetch tasks.''\<rparr>
     \<and> inflight b2 = inflight b
     \<and> step b Mount = b1)
   \<and> (i < length (inflight b') \<and> inflight b' ! i = AwaitGet \<longrightarrow>
        tasks (ui (step b' (GetSettled i (Inl e)))) = tasks (ui b')
        \<and> ui (step b' (GetSettled i (Inl e))) =
            (ui b')\<lparr>error := Some ''Failed to fetch tasks.'', loading_tasks := False\<rparr>
        \<and> requests (step b' (GetSettled i (Inl e))) = requests b')"
proof -
  define b1 where "b1 = step b RefreshClick"
  have s1: "b1 = b\<lparr>ui := (ui b)\<lparr>loading_tasks := True, error := None\<rparr>,
                    inflight := inflight b @ [AwaitGet],
                    requests := requests b @ [ApiGet ''/tasks/my'']\<rparr>"
    unfolding b1_def by (simp add: fetchTasks_begin_def suspend_def)
  have i1: "inflight b1 = inflight b @ [AwaitGet]" by (simp add: s1)
  have m: "step b Mount = b1" unfolding b1_def by simp
  have scenario: "let b1 = step b RefreshClick;
        b2 = step b1 (GetSettled (length (inflight b)) (Inl e))
    in tasks (ui b1) = tasks (ui b)
     \<and> requests b1 = requests b @ [ApiGet ''/tasks/my'']
     \<and> tasks (ui b2) = tasks (ui b)
     \<and> ui b2 = (ui b)\<lparr>loading_tasks := False, error := Some ''Failed to fetch tasks.''\<rparr>
     \<and> inflight b2 = inflight b
     \<and> step b Mount = b1"
    unfolding Let_def b1_def [symmetric] step_get_settled [OF i1] m
    by (simp add: s1 fetchTasks_resume_def)
  have general: "i < length (inflight b') \<and> inflight b' ! i = AwaitGet \<longrightarrow>
        tasks (ui (step b' (GetSettled i (Inl e)))) = tasks (ui b')
        \<and> ui (step b' (GetSettled i (Inl e))) =
            (ui b')\<lparr>error := Some ''Failed to fetch tasks.'', loading_tasks := False\<rparr>
        \<and> requests (step b' (GetSettled i (Inl e))) = requests b'"
    by (simp add: step_get_failed del: step.simps)
  from scenario general show ?thesis by blast
qed

text \<open>
  A refresh of the loaded board fails: task t1 is still there and only the error message
  differs from before. The first load of a board fails: the list stays empty.
\<close>

theorem failed_load_keeps_tasks_witness:
  "0 < length (inflight (step example_board RefreshClick))
   \<and> inflight (step example_board RefreshClick) ! 0 = AwaitGet
   \<and> tasks (ui (step (step example_board RefreshClick) (GetSettled 0 (Inl NetworkError))))
       = [example_task]
   \<and> ui (step (step example_board RefreshClick) (GetSettled 0 (Inl NetworkError)))
       = (ui example_board)\<lparr>error := Some ''Failed to fetch tasks.''\<rparr>
   \<and> tasks (ui (step (step initial_board Mount) (GetSettled 0 (Inl NetworkError)))) = []"
  using failed_load_keeps_tasks
    [of example_board NetworkError 0 "step example_board RefreshClick"]
    failed_load_keeps_tasks
    [of initial_board NetworkError 0 "step initial_board Mount"]
  by (simp add: example_defs board_defs initial_board_def)

text \<open>
  C10. A drag that ends outside every column, or whose task is not in the list, changes
  nothing but the drag overlay (\<open>activeTask\<close> is cleared): the handler returns, the list is
  the same, no request is sent and no call waits.
\<close>

theorem unknown_task_or_no_target_noop:
  assumes "over_id event = None \<or> active_id event \<notin> taskId ` set (tasks (ui b))"
  shows "step b (DragEnd event) = b\<lparr>ui := (ui b)\<lparr>activeTask := None\<rparr>\<rparr>
       \<and> tasks (ui (step b (DragEnd event))) = tasks (ui b)
       \<and> inflight (step b (DragEnd event)) = inflight b
       \<and> requests (step b (DragEnd event)) = requests b"
proof -
  have "find (\<lambda>x. taskId x = active_id event) (tasks (ui b)) = None \<or> over_id event = None"
    using assms by (force simp: find_None_iff image_iff)
  then have "step b (DragEnd event) = b\<lparr>ui := (ui b)\<lparr>activeTask := None\<rparr>\<rparr>"
    by (intro step_stays) blast
  then show ?thesis by simp
qed

text \<open>Task t1 is dropped outside the columns; a task t9 that is not in the list is moved.\<close>

theorem unknown_task_or_no_target_noop_witness:
  "over_id \<lparr>active_id = ''t1'', over_id = None\<rparr> = None
   \<and> step example_board (DragEnd \<lparr>active_id = ''t1'', over_id = None\<rparr>) = example_board
   \<and> active_id \<lparr>active_id = ''t9'', over_id = Some ''Done''\<rparr>
        \<notin> taskId ` set (tasks (ui example_board))
   \<and> step example_board (DragEnd \<lparr>active_id = ''t9'', over_id = Some ''Done''\<rparr>) = example_board"
  using unknown_task_or_no_target_noop [of "\<lparr>active_id = ''t1'', over_id = None\<rparr>" example_board]
    unknown_task_or_no_target_noop [of "\<lparr>active_id = ''t9'', over_id = Some ''Done''\<rparr>" example_board]
  by (simp add: example_defs)

end
